theory Spec2Isabelle
  imports Main "HOL-Library.Char_ord" "HOL-Library.List_Lexorder"
begin

section \<open>Byte buffers\<close>

text \<open>
  A Go \<^verbatim>\<open>[]byte\<close> and a Go \<^verbatim>\<open>string\<close> are sequences of bytes; both are modelled by
  \<^typ>\<open>string\<close>, a list of 8-bit characters. A \<^verbatim>\<open>*bytes.Buffer\<close> used as an output sink
  is modelled by its contents: every writing function takes the contents before the call
  and returns the contents after it.
\<close>

definition WriteString :: "string \<Rightarrow> string \<Rightarrow> string" where
  "WriteString out s = out @ s"

definition WriteByte :: "string \<Rightarrow> char \<Rightarrow> string" where
  "WriteByte out c = out @ [c]"

section \<open>Entity encoder\<close>

definition entityConvert :: "char \<rightharpoonup> string" where
  "entityConvert =
     [CHR ''<'' \<mapsto> ''&lt;'', CHR ''>'' \<mapsto> ''&gt;'', CHR ''&'' \<mapsto> ''&amp;'']"

function writeEntity_loop :: "string \<Rightarrow> string \<Rightarrow> nat \<Rightarrow> string" where
  "writeEntity_loop out text i =
     (if i < length text then
        (case entityConvert (text ! i) of
           Some s \<Rightarrow> writeEntity_loop (WriteString out s) text (i + 1)
         | None \<Rightarrow> writeEntity_loop (WriteByte out (text ! i)) text (i + 1))
      else out)"
  by pat_completeness auto
termination
  by (relation "measure (\<lambda>(out, text, i). length text - i)") auto

definition writeEntity :: "string \<Rightarrow> string \<Rightarrow> string" where
  "writeEntity out text = writeEntity_loop out text 0"

text \<open>The substitution as the specification words it: one entity per reserved byte.\<close>

definition entity_spec :: "char \<Rightarrow> string" where
  "entity_spec c =
     (if c = CHR ''<'' then ''&lt;''
      else if c = CHR ''>'' then ''&gt;''
      else if c = CHR ''&'' then ''&amp;''
      else [c])"

section \<open>Markup stripper\<close>

text \<open>
  \<^verbatim>\<open>sanitizeXML\<close> overwrites its argument while it reads it: the loop state is the
  buffer \<open>s\<close>, the flag, the write index \<open>j\<close> and the read index \<open>i\<close>. An index
  outside the buffer is a run-time panic in Go; it is the result \<open>None\<close> here.
\<close>

function sanitizeXML_loop :: "string \<Rightarrow> bool \<Rightarrow> nat \<Rightarrow> nat \<Rightarrow> string option" where
  "sanitizeXML_loop s inTag j i =
     (if i < length s then
        (if s ! i = CHR ''<'' then sanitizeXML_loop s True j (i + 1)
         else if s ! i = CHR ''>'' then sanitizeXML_loop s False j (i + 1)
         else if \<not> inTag then
           (if j < length s then sanitizeXML_loop (s[j := s ! i]) inTag (j + 1) (i + 1)
            else None)
         else sanitizeXML_loop s inTag j (i + 1))
      else if j \<le> length s then Some (take j s) else None)"
  by pat_completeness auto
termination
  by (relation "measure (\<lambda>(s, inTag, j, i). length s - i)") auto

definition sanitizeXML :: "string \<Rightarrow> string option" where
  "sanitizeXML s = sanitizeXML_loop s False 0 0"

function writeSanitizeXML_loop :: "string \<Rightarrow> string \<Rightarrow> bool \<Rightarrow> nat \<Rightarrow> string" where
  "writeSanitizeXML_loop out s inTag i =
     (if i < length s then
        (if s ! i = CHR ''<'' then writeSanitizeXML_loop out s True (i + 1)
         else if s ! i = CHR ''>'' then writeSanitizeXML_loop out s False (i + 1)
         else if \<not> inTag then writeSanitizeXML_loop (WriteByte out (s ! i)) s inTag (i + 1)
         else writeSanitizeXML_loop out s inTag (i + 1))
      else out)"
  by pat_completeness auto
termination
  by (relation "measure (\<lambda>(out, s, inTag, i). length s - i)") auto

definition writeSanitizeXML :: "string \<Rightarrow> string \<Rightarrow> string" where
  "writeSanitizeXML out s = writeSanitizeXML_loop out s False 0"

text \<open>
  The scanner as a function of the flag and the bytes still to read; both loops are
  shown to compute it.
\<close>

fun scan :: "bool \<Rightarrow> string \<Rightarrow> string" where
  "scan inTag [] = []"
| "scan inTag (c # cs) =
     (if c = CHR ''<'' then scan True cs
      else if c = CHR ''>'' then scan False cs
      else if inTag then scan inTag cs
      else c # scan inTag cs)"

text \<open>
  The stripper as the specification words it: a span runs from a \<open><\<close> to the next
  \<open>>\<close> and is removed with its delimiters, a last \<open><\<close> without a \<open>>\<close> removes the
  rest of the input, and every other byte, a \<open>>\<close> outside a span included, is kept.
\<close>

fun after_gt :: "string \<Rightarrow> string option" where
  "after_gt [] = None"
| "after_gt (c # cs) = (if c = CHR ''>'' then Some cs else after_gt cs)"

function strip_spec :: "string \<Rightarrow> string" where
  "strip_spec [] = []"
| "strip_spec (c # cs) =
     (if c = CHR ''<'' then (case after_gt cs of None \<Rightarrow> [] | Some r \<Rightarrow> strip_spec r)
      else c # strip_spec cs)"
  by pat_completeness auto
termination
proof (relation "measure length")
  show "wf (measure length)" by simp
next
  fix c :: char and cs r :: string
  assume "after_gt cs = Some r"
  then have "length r < Suc (length cs)"
    by (induction cs) (auto split: if_splits)
  then show "(r, c # cs) \<in> measure length" by simp
next
  fix c :: char and cs :: string
  show "(cs, c # cs) \<in> measure length" by simp
qed

section \<open>Decimal formatting\<close>

text \<open>
  \<^verbatim>\<open>strconv.Itoa\<close> and \<^verbatim>\<open>fmt.Sprintf("%02d", n)\<close> belong to the Go standard
  library. \<open>Itoa\<close> prints the decimal digits, with a leading minus sign for a negative
  number. The verb \<^verbatim>\<open>%02d\<close> asks for a field of width 2 filled with zeros on the
  left; the sign, when there is one, takes one place of the field, and a number that
  needs more places is printed in full.
\<close>

definition digit :: "nat \<Rightarrow> char" where
  "digit d = ''0123456789'' ! d"

function digits :: "nat \<Rightarrow> string" where
  "digits n = (if n < 10 then [digit n] else digits (n div 10) @ [digit (n mod 10)])"
  by pat_completeness auto
termination
  by (relation "measure id") auto

definition Itoa :: "int \<Rightarrow> string" where
  "Itoa n = (if n < 0 then ''-'' @ digits (nat (- n)) else digits (nat n))"

definition zero_pad :: "nat \<Rightarrow> string \<Rightarrow> string" where
  "zero_pad w ds = replicate (w - length ds) (CHR ''0'') @ ds"

definition Sprintf_02d :: "int \<Rightarrow> string" where
  "Sprintf_02d n =
     (if n < 0 then ''-'' @ zero_pad 1 (digits (nat (- n))) else zero_pad 2 (digits (nat n)))"

text \<open>
  The padding as the specification words it: a sequence number of one digit gets a zero
  in front, every other number is printed as \<open>Itoa\<close> prints it.
\<close>

definition pad2_spec :: "int \<Rightarrow> string" where
  "pad2_spec n = (if 0 \<le> n \<and> n < 10 then ''0'' @ Itoa n else Itoa n)"

text \<open>Reading a digit string back, to say that a rendering has lost nothing.\<close>

definition digit_val :: "char \<Rightarrow> nat" where
  "digit_val c = of_char c - 48"

definition read_digits :: "string \<Rightarrow> nat" where
  "read_digits ds = foldl (\<lambda>acc c. 10 * acc + digit_val c) 0 ds"

section \<open>Citation resolver\<close>

record citation =
  link :: string
  seq :: int
  "typ" :: char

text \<open>
  The two base URLs are package-level variables; the resolver reads them, so they are
  an argument of the model. \<open>default_urls\<close> holds the values the source gives them.
\<close>

record urls =
  CitationsID :: string
  CitationsRFC :: string

definition default_urls :: urls where
  "default_urls =
     \<lparr>CitationsID = ''http://xml2rfc.ietf.org/public/rfc/bibxml3/'',
      CitationsRFC = ''http://xml2rfc.ietf.org/public/rfc/bibxml/''\<rparr>"

definition referenceRFC :: string where
  "referenceRFC = ''reference.RFC.''"

definition referenceID :: string where
  "referenceID = ''reference.I-D.draft-''"

definition referenceIDLatest :: string where
  "referenceIDLatest = ''reference.I-D.''"

definition ext :: string where
  "ext = ''.xml''"

definition referenceFile :: "urls \<Rightarrow> citation \<Rightarrow> string" where
  "referenceFile u c =
     (if length (link c) < 4 then []
      else if take 3 (link c) = ''RFC'' then
        CitationsRFC u @ referenceRFC @ drop 3 (link c) @ ext
      else if take 3 (link c) = ''I-D'' then
        (if seq c \<noteq> - 1 then
           CitationsID u @ referenceID @ drop 4 (link c) @ (''-'' @ Sprintf_02d (seq c)) @ ext
         else CitationsID u @ referenceIDLatest @ drop 4 (link c) @ ext)
      else [])"

section \<open>Citation catalog\<close>

text \<open>
  A Go map is visited by \<^verbatim>\<open>range\<close> in an order the language does not fix. The model
  takes the entries in the order of the visit, whatever it is: a list of pairs with
  pairwise different keys.
\<close>

fun citations_range ::
  "(string \<times> citation) list \<Rightarrow> nat \<times> nat \<times> string list \<Rightarrow> nat \<times> nat \<times> string list" where
  "citations_range [] st = st"
| "citations_range ((k, c) # rest) (refi, refn, keys) =
     citations_range rest
       (if typ c = CHR ''i'' then refi + 1 else refi,
        if typ c = CHR ''n'' then refn + 1 else refn,
        keys @ [k])"

definition countCitationsAndSort ::
  "(string \<times> citation) list \<Rightarrow> nat \<times> nat \<times> string list" where
  "countCitationsAndSort citations =
     (case citations_range citations (0, 0, []) of
        (refi, refn, keys) \<Rightarrow> (refi, refn, sort keys))"

text \<open>
  Go compares strings byte by byte, a proper prefix coming first; \<^verbatim>\<open>sort.Strings\<close>
  of the standard library sorts in that order. It is modelled by \<open>sort\<close> on the
  lexicographic order of byte lists; an ascending arrangement of given strings is
  unique, so the sorting algorithm does not show in the result. \<open>bytes_le\<close> writes
  the comparison out.
\<close>

fun bytes_le :: "string \<Rightarrow> string \<Rightarrow> bool" where
  "bytes_le [] ys = True"
| "bytes_le (x # xs) [] = False"
| "bytes_le (x # xs) (y # ys) =
     ((of_char x :: nat) < of_char y \<or> (x = y \<and> bytes_le xs ys))"

section \<open>Title block\<close>

abbreviation DQ :: string where
  "DQ \<equiv> [CHR 0x22]"

abbreviation NL :: string where
  "NL \<equiv> [CHR 0x0A]"

subsection \<open>Date\<close>

















subsection \<open>Process instructions\<close>

record pi =
  Toc :: string
  Symrefs :: string
  Sortrefs :: string
  Compact :: string
  Topblock :: string
  Comments :: string
  Subcompact :: string
  Private :: string
  Header :: string
  Footer :: string

definition yesno :: "string \<Rightarrow> string \<Rightarrow> string" where
  "yesno s def = (if s = [] then def else if s = ''yes'' then ''yes'' else ''no'')"

text \<open>
  Modelled from the spec: \<^verbatim>\<open>printf\<close>, the diagnostic helper, is declared outside the
  files at hand. The specification calls it a report through a diagnostic sink that is
  not fatal: the model appends the formatted message to the sink, a list of lines, and
  returns. Its first argument, the parser, is \<^verbatim>\<open>nil\<close> at the one call and is left out.
\<close>

definition printf :: "string list \<Rightarrow> string \<Rightarrow> string \<Rightarrow> string list" where
  "printf sink format v = sink @ [format @ v]"

text \<open>
  The marker \<^verbatim>\<open>piNotSet\<close> is a string constant declared outside the files at hand; it is
  an argument of the model. The function returns its string together with the sink.
\<close>

definition titleBlockTOMLPI ::
  "string \<Rightarrow> string list \<Rightarrow> pi \<Rightarrow> string \<Rightarrow> int \<Rightarrow> string \<times> string list" where
  "titleBlockTOMLPI piNotSet sink p name version =
     (if version = 2 then
        (if name = ''toc'' then
           (''<?rfc toc='' @ DQ @ yesno (Toc p) ''yes'' @ DQ @ ''?>'' @ NL, sink)
         else if name = ''symrefs'' then
           (''<?rfc symrefs='' @ DQ @ yesno (Symrefs p) ''yes'' @ DQ @ ''?>'' @ NL, sink)
         else if name = ''sortrefs'' then
           (''<?rfc sortrefs='' @ DQ @ yesno (Sortrefs p) ''yes'' @ DQ @ ''?>'' @ NL, sink)
         else if name = ''compact'' then
           (''<?rfc compact='' @ DQ @ yesno (Compact p) ''yes'' @ DQ @ ''?>'' @ NL, sink)
         else if name = ''topblock'' then
           (''<?rfc topblock='' @ DQ @ yesno (Topblock p) ''yes'' @ DQ @ ''?>'' @ NL, sink)
         else if name = ''comments'' then
           (''<?rfc comments='' @ DQ @ yesno (Comments p) ''no'' @ DQ @ ''?>'' @ NL, sink)
         else if name = ''subcompact'' then
           (''<?rfc subcompact='' @ DQ @ yesno (Subcompact p) ''no'' @ DQ @ ''?>'' @ NL, sink)
         else if name = ''private'' then
           (''<?rfc private='' @ DQ @ yesno (Private p) [] @ DQ @ ''?>'' @ NL, sink)
         else if name = ''header'' then
           (if Header p = piNotSet then ([], sink)
            else (''<?rfc header='' @ DQ @ Header p @ DQ @ ''?>'' @ NL, sink))
         else if name = ''footer'' then
           (if Footer p = piNotSet then ([], sink)
            else (''<?rfc footer='' @ DQ @ Footer p @ DQ @ ''?>'' @ NL, sink))
         else ([], printf sink ''unhandled or unknown PI seen: '' name))
      else ([], sink))"

text \<open>The names the switch knows.\<close>

definition pi_names :: "string list" where
  "pi_names =
     [''toc'', ''symrefs'', ''sortrefs'', ''compact'', ''topblock'', ''comments'',
      ''subcompact'', ''private'', ''header'', ''footer'']"

subsection \<open>Author\<close>

record postal =
  Street :: string
  City :: string
  Code :: string
  Country :: string

record address =
  Postal :: postal
  Phone :: string
  Email :: string
  Uri :: string

record author =
  Initials :: string
  Surname :: string
  Fullname :: string
  Organization :: string
  OrganizationAbbrev :: string
  Address :: address

text \<open>
  \<^verbatim>\<open>strings.Split(s, "\n")\<close> of the standard library: the pieces between the line
  breaks, one piece more than there are line breaks.
\<close>

fun Split_NL :: "string \<Rightarrow> string list" where
  "Split_NL [] = [[]]"
| "Split_NL (c # cs) =
     (if c = CHR 0x0A then [] # Split_NL cs
      else (case Split_NL cs of [] \<Rightarrow> [[c]] | l # ls \<Rightarrow> (c # l) # ls))"

definition titleBlockTOMLAuthor :: "string \<Rightarrow> author \<Rightarrow> string" where
  "titleBlockTOMLAuthor out0 a =
     (let out = WriteString out0 ''<author'';
          out = WriteString out ('' initials='' @ DQ);
          out = writeEntity out (Initials a);
          out = WriteString out DQ;
          out = WriteString out ('' surname='' @ DQ);
          out = writeEntity out (Surname a);
          out = WriteString out DQ;
          out = WriteString out ('' fullname='' @ DQ);
          out = writeEntity out (Fullname a);
          out = WriteString out (DQ @ ''>'' @ NL);
          abbrev = (if OrganizationAbbrev a \<noteq> []
                    then '' abbrev='' @ DQ @ OrganizationAbbrev a @ DQ else []);
          out = WriteString out (''<organization'' @ abbrev @ ''>'');
          out = writeEntity out (Organization a);
          out = WriteString out (''</organization>'' @ NL);
          out = WriteString out (''<address>'' @ NL);
          out = WriteString out (''<postal>'' @ NL);
          out = fold (\<lambda>street out.
                   WriteString (writeEntity (WriteString out ''<street>'') street)
                     (''</street>'' @ NL))
                  (Split_NL (Street (Postal (Address a)))) out;
          out = fold (\<lambda>city out.
                   WriteString (writeEntity (WriteString out ''<city>'') city)
                     (''</city>'' @ NL))
                  (Split_NL (City (Postal (Address a)))) out;
          out = fold (\<lambda>code out. WriteString out (''<code>'' @ code @ ''</code>'' @ NL))
                  (Split_NL (Code (Postal (Address a)))) out;
          out = fold (\<lambda>country out.
                   WriteString (writeEntity (WriteString out ''<country>'') country)
                     (''</country>'' @ NL))
                  (Split_NL (Country (Postal (Address a)))) out;
          out = WriteString out (''</postal>'' @ NL);
          out = WriteString out (''<phone>'' @ Phone (Address a) @ ''</phone>'' @ NL);
          out = WriteString out (''<email>'' @ Email (Address a) @ ''</email>'' @ NL);
          out = WriteString out (''<uri>'' @ Uri (Address a) @ ''</uri>'' @ NL);
          out = WriteString out (''</address>'' @ NL);
          out = WriteString out (''</author>'' @ NL)
      in out)"


section \<open>The loops in closed form\<close>

declare writeEntity_loop.simps [simp del]
declare sanitizeXML_loop.simps [simp del]
declare writeSanitizeXML_loop.simps [simp del]
declare digits.simps [simp del]

lemma entityConvert_cases:
  "entityConvert c =
     (if c = CHR ''&'' then Some ''&amp;''
      else if c = CHR ''>'' then Some ''&gt;''
      else if c = CHR ''<'' then Some ''&lt;''
      else None)"
  by (simp add: entityConvert_def)

lemma writeEntity_loop_eq:
  "i \<le> length bs \<Longrightarrow>
   writeEntity_loop out bs i = out @ concat (map entity_spec (drop i bs))"
proof (induction out bs i rule: writeEntity_loop.induct)
  case (1 out bs i)
  show ?case
  proof (cases "i < length bs")
    case False
    then show ?thesis by (simp add: writeEntity_loop.simps [of out bs i])
  next
    case True
    then have d: "drop i bs = bs ! i # drop (Suc i) bs"
      by (simp add: Cons_nth_drop_Suc)
    show ?thesis
    proof (cases "entityConvert (bs ! i)")
      case None
      with True 1(1) [OF True None] show ?thesis
        by (simp add: writeEntity_loop.simps [of out bs i] d WriteByte_def
            entity_spec_def entityConvert_cases split: if_splits)
    next
      case (Some e)
      with True 1(2) [OF True Some] show ?thesis
        by (auto simp add: writeEntity_loop.simps [of out bs i] d WriteString_def
            entity_spec_def entityConvert_cases split: if_splits)
    qed
  qed
qed

lemma writeEntity_eq: "writeEntity out bs = out @ concat (map entity_spec bs)"
  by (simp add: writeEntity_def writeEntity_loop_eq)

lemma writeSanitizeXML_loop_eq:
  "i \<le> length s \<Longrightarrow> writeSanitizeXML_loop out s inTag i = out @ scan inTag (drop i s)"
proof (induction out s inTag i rule: writeSanitizeXML_loop.induct)
  case (1 out s inTag i)
  show ?case
  proof (cases "i < length s")
    case False
    then show ?thesis by (simp add: writeSanitizeXML_loop.simps [of out s inTag i])
  next
    case True
    then have d: "drop i s = s ! i # drop (Suc i) s"
      by (simp add: Cons_nth_drop_Suc)
    from True 1 show ?thesis
      by (simp add: writeSanitizeXML_loop.simps [of out s inTag i] d WriteByte_def)
  qed
qed

text \<open>
  The in-place loop never reads a byte it has overwritten: the write index stays at or
  below the read index, so the unread part of the buffer is the unread part of the input.
\<close>

lemma sanitizeXML_loop_eq:
  "j \<le> i \<Longrightarrow> i \<le> length s \<Longrightarrow>
   sanitizeXML_loop s inTag j i = Some (take j s @ scan inTag (drop i s))"
proof (induction s inTag j i rule: sanitizeXML_loop.induct)
  case (1 s inTag j i)
  show ?case
  proof (cases "i < length s")
    case False
    with 1(6) have "i = length s" by simp
    with 1(5) show ?thesis by (simp add: sanitizeXML_loop.simps [of s inTag j "length s"])
  next
    case True
    then have d: "drop i s = s ! i # drop (Suc i) s"
      by (simp add: Cons_nth_drop_Suc)
    have jl: "j < length s" using True 1(5) by simp
    have t: "take (Suc j) (s[j := s ! i]) = take j s @ [s ! i]"
      using jl by (simp add: take_Suc_conv_app_nth)
    have dd: "drop (Suc i) (s[j := s ! i]) = drop (Suc i) s"
      using 1(5) by simp
    from True 1 jl show ?thesis
      by (simp add: sanitizeXML_loop.simps [of s inTag j i] d t dd)
  qed
qed

lemma sanitizeXML_scan: "sanitizeXML s = Some (scan False s)"
  by (simp add: sanitizeXML_def sanitizeXML_loop_eq)

lemma writeSanitizeXML_scan: "writeSanitizeXML out s = out @ scan False s"
  by (simp add: writeSanitizeXML_def writeSanitizeXML_loop_eq)

lemma scan_True: "scan True cs = (case after_gt cs of None \<Rightarrow> [] | Some r \<Rightarrow> scan False r)"
  by (induction cs) auto

lemma scan_strip_spec: "scan False s = filter (\<lambda>c. c \<noteq> CHR ''>'') (strip_spec s)"
  by (induction s rule: strip_spec.induct) (auto simp: scan_True split: option.splits)

lemma scan_no_delim: "CHR ''<'' \<notin> set (scan b s) \<and> CHR ''>'' \<notin> set (scan b s)"
  by (induction s arbitrary: b) auto

lemma scan_id: "CHR ''<'' \<notin> set s \<Longrightarrow> CHR ''>'' \<notin> set s \<Longrightarrow> scan False s = s"
  by (induction s) auto

lemma scan_idem: "scan False (scan b s) = scan b s"
  by (simp add: scan_id scan_no_delim)

lemma fold_append: "fold (\<lambda>x out. out @ g x) xs out = out @ concat (map g xs)"
  by (induction xs arbitrary: out) auto

section \<open>Decimal numerals\<close>

lemma digit_val_digit: "d < 10 \<Longrightarrow> digit_val (digit d) = d"
proof -
  assume "d < 10"
  then have "d \<in> {0, 1, 2, 3, 4, 5, 6, 7, 8, 9}"
    by auto
  then show ?thesis
    by (auto simp add: digit_def digit_val_def)
qed

lemma read_digits_snoc: "read_digits (ds @ [c]) = 10 * read_digits ds + digit_val c"
  by (simp add: read_digits_def)

lemma read_digits_digits: "read_digits (digits n) = n"
proof (induction n rule: digits.induct)
  case (1 n)
  show ?case
  proof (cases "n < 10")
    case True
    then show ?thesis
      by (simp add: digits.simps [of n] read_digits_def digit_val_digit)
  next
    case False
    with 1 show ?thesis
      by (simp add: digits.simps [of n] read_digits_snoc digit_val_digit)
  qed
qed

lemma length_digits_small: "n < 10 \<Longrightarrow> length (digits n) = 1"
  by (simp add: digits.simps [of n])

lemma length_digits_pos: "Suc 0 \<le> length (digits n)"
  by (simp add: digits.simps [of n])

lemma length_digits_ge2: "10 \<le> n \<Longrightarrow> 2 \<le> length (digits n)"
  using length_digits_pos [of "n div 10"] by (simp add: digits.simps [of n])

lemma length_digits_ge3: "100 \<le> n \<Longrightarrow> 3 \<le> length (digits n)"
  using length_digits_ge2 [of "n div 10"] by (simp add: digits.simps [of n])

lemma Sprintf_02d_pad2: "Sprintf_02d n = pad2_spec n"
proof -
  consider "n < 0" | "0 \<le> n" "n < 10" | "10 \<le> n" by linarith
  then show ?thesis
  proof cases
    case 1
    then show ?thesis
      using length_digits_pos [of "nat (- n)"]
      by (simp add: Sprintf_02d_def pad2_spec_def Itoa_def zero_pad_def)
  next
    case 2
    then show ?thesis
      using length_digits_small [of "nat n"]
      by (simp add: Sprintf_02d_def pad2_spec_def Itoa_def zero_pad_def)
  next
    case 3
    then show ?thesis
      using length_digits_ge2 [of "nat n"]
      by (simp add: Sprintf_02d_def pad2_spec_def Itoa_def zero_pad_def)
  qed
qed

section \<open>Order and counting\<close>

lemma bytes_le_iff: "bytes_le xs ys \<longleftrightarrow> xs \<le> ys"
  by (induction xs ys rule: bytes_le.induct) (auto simp: less_char_def)

lemma citations_range_eq:
  "citations_range m (a, b, ks) =
     (a + length (filter (\<lambda>e. typ (snd e) = CHR ''i'') m),
      b + length (filter (\<lambda>e. typ (snd e) = CHR ''n'') m),
      ks @ map fst m)"
  by (induction m arbitrary: a b ks) auto

lemma two_class_count:
  fixes P Q :: "'a \<Rightarrow> bool"
  assumes "\<And>x. \<not> (P x \<and> Q x)"
  shows "length (filter P m) + length (filter Q m) \<le> length m \<and>
         (length (filter P m) + length (filter Q m) = length m \<longleftrightarrow> (\<forall>x\<in>set m. P x \<or> Q x))"
  using assms by (induction m) auto

section \<open>Calendar dates\<close>














section \<open>Citation resolver: the URL of a citation\<close>

text \<open>
  Claim C1. For every citation, \<open>referenceFile\<close> returns the empty string when the
  link is shorter than 4 bytes or its first 3 bytes are neither \<open>RFC\<close> nor \<open>I-D\<close>;
  for \<open>RFC\<close>, the RFC base URL, \<open>reference.RFC.\<close>, the link after position 3 and
  \<open>.xml\<close>; for \<open>I-D\<close> with the sequence \<open>-1\<close>, the I-D base URL,
  \<open>reference.I-D.\<close>, the link after position 4 and \<open>.xml\<close>; for \<open>I-D\<close> with
  a sequence number, the I-D base URL, \<open>reference.I-D.draft-\<close>, the link after
  position 4, a hyphen, the sequence padded with zeros to two digits at least, and
  \<open>.xml\<close>. The right-hand side reads the link, the sequence and the two base URLs and
  nothing else, so the result is a function of these alone. A sequence below \<open>-1\<close>
  is no sequence number of the data model; the equation covers it all the same, with
  the numeral \<open>Itoa\<close> prints.
\<close>

theorem referenceFile_url:
  "referenceFile u c =
     (if length (link c) < 4 then []
      else if take 3 (link c) = ''RFC'' then
        CitationsRFC u @ ''reference.RFC.'' @ drop 3 (link c) @ ''.xml''
      else if take 3 (link c) = ''I-D'' then
        (if seq c = - 1 then
           CitationsID u @ ''reference.I-D.'' @ drop 4 (link c) @ ''.xml''
         else
           CitationsID u @ ''reference.I-D.draft-'' @ drop 4 (link c) @ ''-''
             @ pad2_spec (seq c) @ ''.xml'')
      else [])"
  by (simp add: referenceFile_def referenceRFC_def referenceID_def referenceIDLatest_def
      ext_def Sprintf_02d_pad2)

theorem referenceFile_url_witness:
  "referenceFile default_urls \<lparr>link = ''RFC2119'', seq = - 1, typ = CHR ''n''\<rparr> =
     ''http://xml2rfc.ietf.org/public/rfc/bibxml/reference.RFC.2119.xml''
   \<and> referenceFile default_urls
       \<lparr>link = ''I-D.ietf-dane-openpgpkey'', seq = 2, typ = CHR ''i''\<rparr> =
     ''http://xml2rfc.ietf.org/public/rfc/bibxml3/reference.I-D.draft-ietf-dane-openpgpkey-02.xml''
   \<and> referenceFile default_urls
       \<lparr>link = ''I-D.ietf-dane-openpgpkey'', seq = - 1, typ = CHR ''i''\<rparr> =
     ''http://xml2rfc.ietf.org/public/rfc/bibxml3/reference.I-D.ietf-dane-openpgpkey.xml''
   \<and> referenceFile default_urls \<lparr>link = ''XY'', seq = - 1, typ = CHR ''i''\<rparr> = []
   \<and> referenceFile default_urls \<lparr>link = ''BCP14'', seq = - 1, typ = CHR ''i''\<rparr> = []"
proof -
  have p: "pad2_spec 2 = ''02''"
    by (simp add: pad2_spec_def Itoa_def digits.simps digit_def)
  show ?thesis
    using
      referenceFile_url [of default_urls "\<lparr>link = ''RFC2119'', seq = - 1, typ = CHR ''n''\<rparr>"]
      referenceFile_url [of default_urls
        "\<lparr>link = ''I-D.ietf-dane-openpgpkey'', seq = 2, typ = CHR ''i''\<rparr>"]
      referenceFile_url [of default_urls
        "\<lparr>link = ''I-D.ietf-dane-openpgpkey'', seq = - 1, typ = CHR ''i''\<rparr>"]
      referenceFile_url [of default_urls "\<lparr>link = ''XY'', seq = - 1, typ = CHR ''i''\<rparr>"]
      referenceFile_url [of default_urls "\<lparr>link = ''BCP14'', seq = - 1, typ = CHR ''i''\<rparr>"]
    by (simp add: default_urls_def p)
qed

text \<open>
  Claim C4. For every I-D citation whose sequence number has three decimal digits or
  more, the sequence segment of the URL carries all the digits: it is the hyphen and
  the plain decimal numeral, which is at least three bytes long and reads back as the
  sequence number. The zeros pad up to two digits and nothing is cut.
\<close>

theorem referenceFile_long_sequence:
  assumes "4 \<le> length (link c)" and "take 3 (link c) = ''I-D''" and "100 \<le> seq c"
  shows "referenceFile u c =
           CitationsID u @ ''reference.I-D.draft-'' @ drop 4 (link c) @ ''-''
             @ Itoa (seq c) @ ''.xml''
         \<and> 3 \<le> length (Itoa (seq c))
         \<and> int (read_digits (Itoa (seq c))) = seq c"
proof -
  from assms(3) have p: "Sprintf_02d (seq c) = Itoa (seq c)"
    by (simp add: Sprintf_02d_pad2 pad2_spec_def)
  from assms(3) have l: "3 \<le> length (Itoa (seq c))"
    using length_digits_ge3 [of "nat (seq c)"] by (simp add: Itoa_def)
  from assms(3) have r: "int (read_digits (Itoa (seq c))) = seq c"
    by (simp add: Itoa_def read_digits_digits)
  from assms p have "referenceFile u c =
      CitationsID u @ ''reference.I-D.draft-'' @ drop 4 (link c) @ ''-''
        @ Itoa (seq c) @ ''.xml''"
    by (simp add: referenceFile_def referenceID_def ext_def)
  with l r show ?thesis by simp
qed

theorem referenceFile_long_sequence_witness:
  "referenceFile default_urls \<lparr>link = ''I-D.x'', seq = 123, typ = CHR ''i''\<rparr> =
     ''http://xml2rfc.ietf.org/public/rfc/bibxml3/reference.I-D.draft-x-123.xml''
   \<and> Itoa 123 = ''123''"
proof -
  have i: "Itoa 123 = ''123''"
    by (simp add: Itoa_def digits.simps digit_def)
  show ?thesis
    using referenceFile_long_sequence
      [of "\<lparr>link = ''I-D.x'', seq = 123, typ = CHR ''i''\<rparr>" default_urls]
    by (simp add: i default_urls_def)
qed

section \<open>Citation catalog: counts and sorted keys\<close>

text \<open>
  Claim C5. For every citations mapping, in whatever order its entries are visited,
  \<open>countCitationsAndSort\<close> returns the number of entries of class \<open>i\<close>
  (informative), the number of entries of class \<open>n\<close> (normative) and the keys of the
  mapping sorted byte-wise: the list holds exactly the keys, in ascending order, and is
  as long as the mapping. An entry of neither class adds to neither count, its key is
  in the list, the two counts together are at most the size of the mapping, and they
  reach it exactly when every entry has a class.
\<close>

theorem countCitationsAndSort_catalog:
  assumes "distinct (map fst citations)"
    and "countCitationsAndSort citations = (refi, refn, keys)"
  shows "refi = card {e \<in> set citations. typ (snd e) = CHR ''i''}
       \<and> refn = card {e \<in> set citations. typ (snd e) = CHR ''n''}
       \<and> keys = sorted_list_of_set (fst ` set citations)
       \<and> set keys = fst ` set citations
       \<and> sorted_wrt bytes_le keys
       \<and> length keys = length citations
       \<and> refi + refn \<le> length citations
       \<and> (refi + refn = length citations \<longleftrightarrow>
            (\<forall>e\<in>set citations. typ (snd e) = CHR ''i'' \<or> typ (snd e) = CHR ''n''))"
proof -
  let ?I = "\<lambda>e::string \<times> citation. typ (snd e) = CHR ''i''"
  let ?N = "\<lambda>e::string \<times> citation. typ (snd e) = CHR ''n''"
  from assms(2) have refi: "refi = length (filter ?I citations)"
    and refn: "refn = length (filter ?N citations)"
    and keys: "keys = sort (map fst citations)"
    by (simp_all add: countCitationsAndSort_def citations_range_eq)
  from assms(1) have d: "distinct citations"
    by (simp add: distinct_map)
  have ci: "refi = card {e \<in> set citations. ?I e}"
    using d distinct_card [of "filter ?I citations"] by (simp add: refi)
  have cn: "refn = card {e \<in> set citations. ?N e}"
    using d distinct_card [of "filter ?N citations"] by (simp add: refn)
  have "sorted_list_of_set (set (map fst citations)) = sort (remdups (map fst citations))"
    by (rule sorted_list_of_set_sort_remdups)
  with assms(1) have ks: "keys = sorted_list_of_set (fst ` set citations)"
    by (simp add: keys distinct_remdups_id)
  have st: "set keys = fst ` set citations"
    by (simp add: keys)
  have "sorted keys"
    by (simp add: keys)
  then have sw: "sorted_wrt bytes_le keys"
    by (simp add: sorted_wrt_iff_nth_less bytes_le_iff)
  have ln: "length keys = length citations"
    by (simp add: keys)
  have "\<And>e. \<not> (?I e \<and> ?N e)"
    by auto
  from two_class_count [of ?I ?N citations, OF this]
  have cnt: "refi + refn \<le> length citations"
    and eq: "refi + refn = length citations \<longleftrightarrow> (\<forall>e\<in>set citations. ?I e \<or> ?N e)"
    by (simp_all add: refi refn)
  from ci cn ks st sw ln cnt eq show ?thesis
    by blast
qed

theorem countCitationsAndSort_catalog_witness:
  "distinct (map fst
     [(''b'', \<lparr>link = ''RFC2119'', seq = - 1, typ = CHR ''i''\<rparr>),
      (''a'', \<lparr>link = ''I-D.x'', seq = 2, typ = CHR ''n''\<rparr>),
      (''B'', \<lparr>link = ''RFC1'', seq = - 1, typ = CHR ''x''\<rparr>)])
   \<and> countCitationsAndSort
     [(''b'', \<lparr>link = ''RFC2119'', seq = - 1, typ = CHR ''i''\<rparr>),
      (''a'', \<lparr>link = ''I-D.x'', seq = 2, typ = CHR ''n''\<rparr>),
      (''B'', \<lparr>link = ''RFC1'', seq = - 1, typ = CHR ''x''\<rparr>)] = (1, 1, [''B'', ''a'', ''b''])
   \<and> sorted_wrt bytes_le [''B'', ''a'', ''b'']
   \<and> (1::nat) + 1 < 3"
proof -
  let ?m = "[(''b'', \<lparr>link = ''RFC2119'', seq = - 1, typ = CHR ''i''\<rparr>),
      (''a'', \<lparr>link = ''I-D.x'', seq = 2, typ = CHR ''n''\<rparr>),
      (''B'', \<lparr>link = ''RFC1'', seq = - 1, typ = CHR ''x''\<rparr>)]"
  have d: "distinct (map fst ?m)"
    by simp
  have s: "sort [''b'', ''a'', ''B''] = [''B'', ''a'', ''b'']"
    by code_simp
  have r: "countCitationsAndSort ?m = (1, 1, [''B'', ''a'', ''b''])"
    by (simp add: countCitationsAndSort_def s)
  from countCitationsAndSort_catalog [OF d r] have "sorted_wrt bytes_le [''B'', ''a'', ''b'']"
    by blast
  with d r show ?thesis
    by simp
qed

section \<open>Entity encoder: the substitution\<close>

text \<open>
  Claim C6. For every input, \<open>writeEntity\<close> appends to the buffer the input with
  every \<open><\<close> replaced by \<open>&lt;\<close>, every \<open>>\<close> by \<open>&gt;\<close>, every \<open>&\<close> by
  \<open>&amp;\<close> and every other byte unchanged, byte by byte in one pass, so that an
  \<open>&\<close> that already starts an entity is encoded again. The function is total, and
  what it appends is at least as long as the input.
\<close>

theorem writeEntity_substitutes:
  "writeEntity out bs = out @ concat (map entity_spec bs)
   \<and> length out + length bs \<le> length (writeEntity out bs)"
proof -
  have "length bs \<le> length (concat (map entity_spec bs))"
    by (induction bs) (auto simp: entity_spec_def)
  then show ?thesis
    by (simp add: writeEntity_eq)
qed

theorem writeEntity_substitutes_witness:
  "writeEntity ''x'' ''a<b>&c &amp;'' = ''xa&lt;b&gt;&amp;c &amp;amp;''"
  using writeEntity_substitutes [of "''x''" "''a<b>&c &amp;''"]
  by (simp add: entity_spec_def)

section \<open>Markup stripper: what is removed\<close>

text \<open>
  Claim C2, as amended. For every input \<open>s\<close>, the result of \<open>sanitizeXML\<close>, and what
  \<open>writeSanitizeXML\<close> appends, is \<open>s\<close> with every span from a \<open><\<close> to the next
  \<open>>\<close> removed, delimiters included, with everything after a last \<open><\<close> that has no
  \<open>>\<close> removed, and with every \<open>>\<close> that is left outside the spans removed as well;
  every other byte outside the spans is copied unchanged and in order. The in-place
  loop never indexes outside its buffer.
\<close>

theorem sanitizeXML_strips:
  "sanitizeXML s = Some (filter (\<lambda>c. c \<noteq> CHR ''>'') (strip_spec s))
   \<and> writeSanitizeXML out s = out @ filter (\<lambda>c. c \<noteq> CHR ''>'') (strip_spec s)"
proof -
  have spec: "scan False s = filter (\<lambda>c. c \<noteq> CHR ''>'') (strip_spec s)"
    by (rule scan_strip_spec)
  have inplace: "sanitizeXML s = Some (scan False s)"
    by (rule sanitizeXML_scan)
  have sink: "writeSanitizeXML out s = out @ scan False s"
    by (rule writeSanitizeXML_scan)
  from inplace sink show ?thesis
    by (simp add: spec)
qed

theorem sanitizeXML_strips_witness:
  "sanitizeXML ''a<b>c>d<e'' = Some ''acd'' \<and> strip_spec ''a<b>c>d<e'' = ''ac>d''"
  using sanitizeXML_strips [of "''a<b>c>d<e''" "[]"]
  by simp

text \<open>
  Claim C2 as it was stated keeps a \<open>>\<close> that no \<open><\<close> precedes. On \<open>a>b\<close> the
  stated result is \<open>a>b\<close>; both loops test for \<open>>\<close> before they look at the flag
  and skip the byte, and the result is \<open>ab\<close>.
\<close>

theorem sanitizeXML_keeps_gt_counterexample:
  "sanitizeXML ''a>b'' = Some ''ab'' \<and> strip_spec ''a>b'' = ''a>b''
   \<and> sanitizeXML ''a>b'' \<noteq> Some (strip_spec ''a>b'')"
  by (simp add: sanitizeXML_scan)

text \<open>
  Claim C7. For every input, the bytes of the slice \<open>sanitizeXML\<close> returns are the
  bytes \<open>writeSanitizeXML\<close> appends to its buffer, whatever the buffer held before.
\<close>

theorem strippers_agree:
  "sanitizeXML s = Some (writeSanitizeXML [] s)
   \<and> writeSanitizeXML out s = out @ writeSanitizeXML [] s"
proof -
  have inplace: "sanitizeXML s = Some (scan False s)"
    by (rule sanitizeXML_scan)
  have sink: "writeSanitizeXML b s = b @ scan False s" for b
    by (rule writeSanitizeXML_scan)
  from inplace sink [of "[]"] sink [of out] show ?thesis
    by simp
qed

theorem strippers_agree_witness:
  "sanitizeXML ''<p>Hi <b>you</b>'' = Some ''Hi you''
   \<and> writeSanitizeXML ''> '' ''<p>Hi <b>you</b>'' = ''> Hi you''"
  using strippers_agree [of "''<p>Hi <b>you</b>''" "''> ''"]
  by (simp add: writeSanitizeXML_scan)

text \<open>
  Claim C8. The stripper is idempotent: \<open>sanitizeXML\<close> returns a result \<open>r\<close> on
  every input, and applied to \<open>r\<close> it returns \<open>r\<close> again.
\<close>

theorem sanitizeXML_idempotent:
  "\<exists>r. sanitizeXML s = Some r \<and> sanitizeXML r = Some r"
proof -
  have first: "sanitizeXML s = Some (scan False s)"
    by (rule sanitizeXML_scan)
  have "sanitizeXML (scan False s) = Some (scan False (scan False s))"
    by (rule sanitizeXML_scan)
  then have second: "sanitizeXML (scan False s) = Some (scan False s)"
    by (simp add: scan_idem)
  from first second show ?thesis
    by blast
qed

theorem sanitizeXML_idempotent_witness:
  "sanitizeXML ''a<b>c>d<e'' = Some ''acd'' \<and> sanitizeXML ''acd'' = Some ''acd''"
  using sanitizeXML_idempotent [of "''a<b>c>d<e''"]
  by (simp add: sanitizeXML_scan)

section \<open>Title block: date, process instructions, author\<close>




text \<open>
  Claim C9. \<open>titleBlockTOMLPI\<close> returns the empty string for every name when the
  version is 3, and leaves the sink as it was. When the version is 2 it returns the
  empty string for \<open>header\<close>, and for \<open>footer\<close>, when the value is the marker for
  "not set"; and for a name outside the ten names of the switch it appends one line to
  the diagnostic sink and returns the empty string. It returns in every case.
\<close>

theorem titleBlockTOMLPI_empty:
  "titleBlockTOMLPI piNotSet sink p name 3 = ([], sink)
   \<and> (Header p = piNotSet \<longrightarrow> titleBlockTOMLPI piNotSet sink p ''header'' 2 = ([], sink))
   \<and> (Footer p = piNotSet \<longrightarrow> titleBlockTOMLPI piNotSet sink p ''footer'' 2 = ([], sink))
   \<and> (name \<notin> set pi_names \<longrightarrow>
        titleBlockTOMLPI piNotSet sink p name 2 =
          ([], sink @ [''unhandled or unknown PI seen: '' @ name]))"
proof -
  have v3: "titleBlockTOMLPI piNotSet sink p name 3 = ([], sink)"
    by (simp add: titleBlockTOMLPI_def)
  have header: "titleBlockTOMLPI piNotSet sink p ''header'' 2 = ([], sink)"
    if "Header p = piNotSet"
    using that by (simp add: titleBlockTOMLPI_def)
  have footer: "titleBlockTOMLPI piNotSet sink p ''footer'' 2 = ([], sink)"
    if "Footer p = piNotSet"
    using that by (simp add: titleBlockTOMLPI_def)
  have unknown: "titleBlockTOMLPI piNotSet sink p name 2 =
      ([], sink @ [''unhandled or unknown PI seen: '' @ name])"
    if "name \<notin> set pi_names"
    using that by (simp add: titleBlockTOMLPI_def pi_names_def printf_def)
  from v3 header footer unknown show ?thesis
    by blast
qed

theorem titleBlockTOMLPI_empty_witness:
  "titleBlockTOMLPI ''unset'' []
     \<lparr>Toc = [], Symrefs = [], Sortrefs = [], Compact = [], Topblock = [], Comments = [],
      Subcompact = [], Private = [], Header = ''unset'', Footer = ''unset''\<rparr> ''toc'' 3 = ([], [])
   \<and> titleBlockTOMLPI ''unset'' []
     \<lparr>Toc = [], Symrefs = [], Sortrefs = [], Compact = [], Topblock = [], Comments = [],
      Subcompact = [], Private = [], Header = ''unset'', Footer = ''unset''\<rparr> ''header'' 2 = ([], [])
   \<and> titleBlockTOMLPI ''unset'' []
     \<lparr>Toc = [], Symrefs = [], Sortrefs = [], Compact = [], Topblock = [], Comments = [],
      Subcompact = [], Private = [], Header = ''unset'', Footer = ''unset''\<rparr> ''footer'' 2 = ([], [])
   \<and> ''tocdepth'' \<notin> set pi_names
   \<and> titleBlockTOMLPI ''unset'' []
     \<lparr>Toc = [], Symrefs = [], Sortrefs = [], Compact = [], Topblock = [], Comments = [],
      Subcompact = [], Private = [], Header = ''unset'', Footer = ''unset''\<rparr> ''tocdepth'' 2 =
     ([], [''unhandled or unknown PI seen: tocdepth''])"
proof -
  have n: "''tocdepth'' \<notin> set pi_names"
    by (simp add: pi_names_def)
  show ?thesis
    using n
      titleBlockTOMLPI_empty [of "''unset''" "[]"
        "\<lparr>Toc = [], Symrefs = [], Sortrefs = [], Compact = [], Topblock = [], Comments = [],
          Subcompact = [], Private = [], Header = ''unset'', Footer = ''unset''\<rparr>" "''toc''"]
      titleBlockTOMLPI_empty [of "''unset''" "[]"
        "\<lparr>Toc = [], Symrefs = [], Sortrefs = [], Compact = [], Topblock = [], Comments = [],
          Subcompact = [], Private = [], Header = ''unset'', Footer = ''unset''\<rparr>" "''tocdepth''"]
    by simp
qed

text \<open>
  Claim C10. For every author with a non-empty organization abbreviation,
  \<open>titleBlockTOMLAuthor\<close> writes the abbreviation into the \<open>abbrev\<close> attribute as it
  is, without the entity encoder, so that a \<open><\<close>, \<open>>\<close>, \<open>&\<close> or double quote in it
  reaches the output literally; the initials, the surname, the full name and the
  organization go through the encoder.
\<close>

theorem titleBlockTOMLAuthor_abbrev:
  assumes "OrganizationAbbrev a \<noteq> []"
  shows "titleBlockTOMLAuthor out a =
           out @ ''<author initials='' @ DQ @ concat (map entity_spec (Initials a)) @ DQ
             @ '' surname='' @ DQ @ concat (map entity_spec (Surname a)) @ DQ
             @ '' fullname='' @ DQ @ concat (map entity_spec (Fullname a)) @ DQ @ ''>'' @ NL
             @ ''<organization abbrev='' @ DQ @ OrganizationAbbrev a @ DQ @ ''>''
             @ concat (map entity_spec (Organization a)) @ ''</organization>'' @ NL
             @ ''<address>'' @ NL @ ''<postal>'' @ NL
             @ concat (map (\<lambda>street. ''<street>'' @ concat (map entity_spec street)
                              @ ''</street>'' @ NL)
                 (Split_NL (Street (Postal (Address a)))))
             @ concat (map (\<lambda>city. ''<city>'' @ concat (map entity_spec city)
                              @ ''</city>'' @ NL)
                 (Split_NL (City (Postal (Address a)))))
             @ concat (map (\<lambda>code. ''<code>'' @ code @ ''</code>'' @ NL)
                 (Split_NL (Code (Postal (Address a)))))
             @ concat (map (\<lambda>country. ''<country>'' @ concat (map entity_spec country)
                              @ ''</country>'' @ NL)
                 (Split_NL (Country (Postal (Address a)))))
             @ ''</postal>'' @ NL
             @ ''<phone>'' @ Phone (Address a) @ ''</phone>'' @ NL
             @ ''<email>'' @ Email (Address a) @ ''</email>'' @ NL
             @ ''<uri>'' @ Uri (Address a) @ ''</uri>'' @ NL
             @ ''</address>'' @ NL @ ''</author>'' @ NL"
  using assms
  by (simp add: titleBlockTOMLAuthor_def Let_def WriteString_def writeEntity_eq fold_append)

theorem titleBlockTOMLAuthor_abbrev_witness:
  "OrganizationAbbrev
     \<lparr>Initials = ''J.'', Surname = ''A<B'', Fullname = ''J. A<B'',
      Organization = ''A & B <C>'', OrganizationAbbrev = ''A&B<C>'' @ DQ,
      Address = \<lparr>Postal = \<lparr>Street = [], City = [], Code = [], Country = []\<rparr>,
                 Phone = [], Email = [], Uri = []\<rparr>\<rparr> \<noteq> []
   \<and> titleBlockTOMLAuthor []
     \<lparr>Initials = ''J.'', Surname = ''A<B'', Fullname = ''J. A<B'',
      Organization = ''A & B <C>'', OrganizationAbbrev = ''A&B<C>'' @ DQ,
      Address = \<lparr>Postal = \<lparr>Street = [], City = [], Code = [], Country = []\<rparr>,
                 Phone = [], Email = [], Uri = []\<rparr>\<rparr> =
     ''<author initials='' @ DQ @ ''J.'' @ DQ @ '' surname='' @ DQ @ ''A&lt;B'' @ DQ
       @ '' fullname='' @ DQ @ ''J. A&lt;B'' @ DQ @ ''>'' @ NL
       @ ''<organization abbrev='' @ DQ @ ''A&B<C>'' @ DQ @ DQ @ ''>''
       @ ''A &amp; B &lt;C&gt;</organization>'' @ NL
       @ ''<address>'' @ NL @ ''<postal>'' @ NL
       @ ''<street></street>'' @ NL @ ''<city></city>'' @ NL @ ''<code></code>'' @ NL
       @ ''<country></country>'' @ NL @ ''</postal>'' @ NL
       @ ''<phone></phone>'' @ NL @ ''<email></email>'' @ NL @ ''<uri></uri>'' @ NL
       @ ''</address>'' @ NL @ ''</author>'' @ NL"
  using titleBlockTOMLAuthor_abbrev
    [of "\<lparr>Initials = ''J.'', Surname = ''A<B'', Fullname = ''J. A<B'',
      Organization = ''A & B <C>'', OrganizationAbbrev = ''A&B<C>'' @ DQ,
      Address = \<lparr>Postal = \<lparr>Street = [], City = [], Code = [], Country = []\<rparr>,
                 Phone = [], Email = [], Uri = []\<rparr>\<rparr>" "[]"]
  by (simp add: entity_spec_def)

end
